theory Spec2Isabelle
  imports Complex_Main
begin

section \<open>Shallow embedding of \<open>src/trends/library.py\<close>\<close>

text \<open>
  The module builds a library of transformed time series. The embedding follows the
  source function by function. Conventions:
  \<^item> a series is a list of numbers; Python numbers are idealised as mathematical reals, so
    the rounding of IEEE doubles is outside the model; the range of doubles is modelled
    where leaving it raises: \<open>math.pow\<close> raises \<open>OverflowError\<close>;
  \<^item> the configuration is the Python dict, a map from key to value; a missing key is
    \<open>KeyError\<close>;
  \<^item> every exception the source can raise is a value of \<open>error\<close> returned by \<open>Inl\<close>;
  \<^item> methods that mutate \<open>self\<close> return the pair of their outcome and the object as the
    call leaves it, also when the call raises;
  \<^item> the draw of \<open>random.randint\<close> is made from an explicit entropy argument.
\<close>

subsection \<open>Values, errors and Python primitives\<close>

datatype error =
    AssertionError
  | KeyError string
  | ValueError
  | TypeError
  | OverflowError
  | EOFError
  | UnpicklingError
  | IOError

datatype pyval = PInt int | PFloat real | PBool bool

type_synonym series = "real list"

type_synonym config = "string \<rightharpoonup> pyval"

text \<open>\<open>d[k]\<close> on a dict.\<close>

definition getitem :: "config \<Rightarrow> string \<Rightarrow> error + pyval" where
  "getitem d k = (case d k of None \<Rightarrow> Inl (KeyError k) | Some v \<Rightarrow> Inr v)"

text \<open>The conversions \<open>float(v)\<close>, \<open>int(v)\<close> (truncation towards zero) and \<open>bool(v)\<close>.\<close>

fun py_float :: "pyval \<Rightarrow> real" where
  "py_float (PInt i) = real_of_int i"
| "py_float (PFloat x) = x"
| "py_float (PBool b) = (if b then 1 else 0)"

fun py_int :: "pyval \<Rightarrow> int" where
  "py_int (PInt i) = i"
| "py_int (PFloat x) = (if 0 \<le> x then \<lfloor>x\<rfloor> else \<lceil>x\<rceil>)"
| "py_int (PBool b) = (if b then 1 else 0)"

fun py_bool :: "pyval \<Rightarrow> bool" where
  "py_bool (PInt i) = (i \<noteq> 0)"
| "py_bool (PFloat x) = (x \<noteq> 0)"
| "py_bool (PBool b) = b"

text \<open>
  \<open>xs[start:stop]\<close> with integer bounds: a negative bound counts from the end, and both
  bounds are clamped to the list.
\<close>

definition slice_bound :: "int \<Rightarrow> int \<Rightarrow> int" where
  "slice_bound n i = (if i < 0 then max 0 (i + n) else min i n)"

definition py_slice :: "'a list \<Rightarrow> int \<Rightarrow> int \<Rightarrow> 'a list" where
  "py_slice xs start stop =
     (let n = int (length xs); lo = slice_bound n start; hi = slice_bound n stop
      in take (nat (hi - lo)) (drop (nat lo) xs))"

text \<open>
  The range of doubles. The largest double is \<open>2 ^ 1024 - 2 ^ 971\<close>; under rounding to
  nearest a magnitude below \<open>2 ^ 1024 - 2 ^ 970\<close> still rounds to a double, and one at or
  above it does not: converting such a Python int to a float raises \<open>OverflowError\<close>, and
  so does a \<open>math\<close> function whose result is that large.
\<close>

definition overflow_bound :: real where
  "overflow_bound = 2 ^ 1024 - 2 ^ 970"

definition double_result :: "real \<Rightarrow> error + real" where
  "double_result r = (if overflow_bound \<le> \<bar>r\<bar> then Inl OverflowError else Inr r)"

text \<open>
  \<open>math.pow(x, y)\<close> on reals. An argument outside the range of doubles can only be a
  Python int, and its conversion raises \<open>OverflowError\<close>. Then: a domain error for zero to
  a negative power and for a negative base with a fractional exponent; \<open>OverflowError\<close>
  when the power is outside the range of doubles.
\<close>

definition math_pow :: "real \<Rightarrow> real \<Rightarrow> error + real" where
  "math_pow x y =
     (if overflow_bound \<le> \<bar>x\<bar> \<or> overflow_bound \<le> \<bar>y\<bar> then Inl OverflowError
      else if x = 0 then (if y < 0 then Inl ValueError else if y = 0 then Inr 1 else Inr 0)
      else if x < 0 then
        (if y \<in> \<int> then double_result (power_int x \<lfloor>y\<rfloor>) else Inl ValueError)
      else double_result (x powr y))"

text \<open>\<open>math.log10(x)\<close>: a domain error unless \<open>x\<close> is positive.\<close>

definition math_log10 :: "real \<Rightarrow> error + real" where
  "math_log10 x = (if x \<le> 0 then Inl ValueError else Inr (log 10 x))"

text \<open>
  \<open>random.seed(); random.randint(a, b)\<close>: an empty range raises, otherwise the draw is
  some integer of \<open>[a, b]\<close>, fixed by the entropy \<open>r\<close>; every integer of the range is
  drawn for some \<open>r\<close>.
\<close>

definition randint :: "int \<Rightarrow> int \<Rightarrow> nat \<Rightarrow> error + int" where
  "randint a b r = (if b < a then Inl ValueError else Inr (a + int (r mod nat (b - a + 1))))"

subsection \<open>\<open>TopicSeries.get_subseries\<close>\<close>

text \<open>The generator, as the list of the windows it yields, in order.\<close>

function get_subseries_from :: "'a list \<Rightarrow> int \<Rightarrow> int \<Rightarrow> 'a list list" where
  "get_subseries_from self len index =
     (if index + len \<le> int (length self)
      then py_slice self index (index + len) # get_subseries_from self len (index + 1)
      else [])"
  by pat_completeness auto
termination
  by (relation "measure (\<lambda>(self, len, index). nat (int (length self) - len - index + 1))") auto

definition get_subseries :: "'a list \<Rightarrow> int \<Rightarrow> 'a list list" where
  "get_subseries self len = get_subseries_from self len 0"

subsection \<open>The transformations\<close>

text \<open>\<open>unit_normalization\<close>: the loop body never runs on the empty series.\<close>

definition unit_normalization :: "series \<Rightarrow> config \<Rightarrow> error + series" where
  "unit_normalization series cfg =
     (let size = length series in Inr (map (\<lambda>pt. pt / real size) series))"

text \<open>
  \<open>spike_normalization\<close>: the loop carries \<open>prev_pt\<close> and \<open>new_series\<close>. The
  difference \<open>pt - prev_pt\<close> is the real one: a difference of two floats that leaves the
  range of doubles (infinite in Python) is not modelled.
\<close>

fun spike_loop :: "real \<Rightarrow> real \<Rightarrow> series \<Rightarrow> series \<Rightarrow> error + series" where
  "spike_loop alpha prev_pt new_series [] = Inr new_series"
| "spike_loop alpha prev_pt new_series (pt # rest) =
     (case (if pt = 0 then Inr 0 else math_pow \<bar>pt - prev_pt\<bar> alpha) of
        Inl e \<Rightarrow> Inl e
      | Inr new_pt \<Rightarrow> spike_loop alpha pt (new_series @ [new_pt]) rest)"

definition spike_normalization :: "series \<Rightarrow> config \<Rightarrow> error + series" where
  "spike_normalization series cfg =
     (case getitem cfg ''alpha'' of
        Inl e \<Rightarrow> Inl e
      | Inr a \<Rightarrow> spike_loop (py_float a) 0 [] series)"

text \<open>\<open>smoothing\<close>: the deque is a list, appended at the right and popped at the left.\<close>

fun smoothing_loop :: "int \<Rightarrow> real list \<Rightarrow> series \<Rightarrow> series \<Rightarrow> series" where
  "smoothing_loop N_smooth queue new_series [] = new_series"
| "smoothing_loop N_smooth queue new_series (pt # rest) =
     (let q1 = queue @ [pt];
          q2 = (if int (length q1) > N_smooth then tl q1 else q1)
      in smoothing_loop N_smooth q2 (new_series @ [sum_list q2]) rest)"

definition smoothing :: "series \<Rightarrow> config \<Rightarrow> error + series" where
  "smoothing series cfg =
     (case getitem cfg ''n_smooth'' of
        Inl e \<Rightarrow> Inl e
      | Inr n \<Rightarrow> Inr (smoothing_loop (py_int n) [] [] series))"

text \<open>
  \<open>logarithmic_scaling\<close>: \<open>min(series)\<close> is computed first and raises on the empty
  series; its value is not used.
\<close>

fun log_loop :: "series \<Rightarrow> series \<Rightarrow> error + series" where
  "log_loop new_series [] = Inr new_series"
| "log_loop new_series (pt # rest) =
     (case math_log10 (pt + 1) of
        Inl e \<Rightarrow> Inl e
      | Inr v \<Rightarrow> log_loop (new_series @ [v]) rest)"

definition py_min :: "real list \<Rightarrow> error + real" where
  "py_min xs = (case xs of [] \<Rightarrow> Inl ValueError | x # rest \<Rightarrow> Inr (fold min rest x))"

definition logarithmic_scaling :: "series \<Rightarrow> config \<Rightarrow> error + series" where
  "logarithmic_scaling series cfg =
     (case py_min series of
        Inl e \<Rightarrow> Inl e
      | Inr series_min \<Rightarrow> log_loop [] series)"

subsection \<open>\<open>sizing\<close>\<close>

text \<open>
  The search loop carries \<open>(max_idx, max_pt, idx)\<close>; \<open>max_idx\<close> starts as \<open>None\<close> and
  \<open>max_pt\<close> as \<open>-5000\<close>. With \<open>max_idx\<close> still \<open>None\<close> the subtraction
  \<open>max_idx - size_r\<close> raises \<open>TypeError\<close>.
\<close>

fun sizing_loop :: "int option \<Rightarrow> real \<Rightarrow> int \<Rightarrow> series \<Rightarrow> int option \<times> real \<times> int" where
  "sizing_loop max_idx max_pt idx [] = (max_idx, max_pt, idx)"
| "sizing_loop max_idx max_pt idx (pt # rest) =
     (if pt > max_pt then sizing_loop (Some idx) pt (idx + 1) rest
      else sizing_loop max_idx max_pt (idx + 1) rest)"

definition sizing :: "series \<Rightarrow> config \<Rightarrow> nat \<Rightarrow> error + series" where
  "sizing series cfg r =
     (case getitem cfg ''reference_length'' of
        Inl e \<Rightarrow> Inl e
      | Inr rl \<Rightarrow>
          (let size_r = py_int rl in
           case getitem cfg ''is_trend'' of
             Inl e \<Rightarrow> Inl e
           | Inr t \<Rightarrow>
               if py_bool t then
                 (case fst (sizing_loop None (- 5000) 0 series) of
                    None \<Rightarrow> Inl TypeError
                  | Some max_idx \<Rightarrow> Inr (py_slice series (max_idx - size_r) max_idx))
               else
                 (case randint 0 (int (length series) - size_r) r of
                    Inl e \<Rightarrow> Inl e
                  | Inr index \<Rightarrow> Inr (py_slice series index (index + size_r)))))"

subsection \<open>\<open>Library\<close>\<close>

record library =
  trends :: "series list"
  non_trends :: "series list"
  config :: config
  transformations :: "(series \<Rightarrow> config \<Rightarrow> error + series) list"

definition set_up_transformations :: "(series \<Rightarrow> config \<Rightarrow> error + series) list" where
  "set_up_transformations =
     [] @ [spike_normalization] @ [smoothing] @ [unit_normalization] @ [logarithmic_scaling]"

definition default_config :: config where
  "default_config =
     [''reference_length'' \<mapsto> PInt 210, ''n_smooth'' \<mapsto> PInt 80, ''alpha'' \<mapsto> PFloat 1.2]"

text \<open>
  \<open>Library.__init__(self, **kwargs)\<close>: the keyword arguments are a map from keyword to
  the dict passed under it; \<open>kwargs["config"]\<close> raises \<open>KeyError\<close> when the keyword is
  absent.
\<close>

definition Library_init :: "(string \<rightharpoonup> config) \<Rightarrow> error + library" where
  "Library_init kwargs =
     (case kwargs ''config'' of
        None \<Rightarrow> Inl (KeyError ''config'')
      | Some overrides \<Rightarrow>
          Inr \<lparr> trends = [], non_trends = [],
                config = default_config ++ overrides,
                transformations = set_up_transformations \<rparr>)"

fun run_transformations ::
  "(series \<Rightarrow> config \<Rightarrow> error + series) list \<Rightarrow> config \<Rightarrow> series \<Rightarrow> error + series" where
  "run_transformations [] cfg series = Inr series"
| "run_transformations (transformation # rest) cfg series =
     (case transformation series cfg of
        Inl e \<Rightarrow> Inl e
      | Inr series' \<Rightarrow> run_transformations rest cfg series')"

definition transform_input :: "library \<Rightarrow> series \<Rightarrow> error + series" where
  "transform_input self series = run_transformations (transformations self) (config self) series"

definition add_series :: "library \<Rightarrow> series \<Rightarrow> bool \<Rightarrow> (error + unit) \<times> library" where
  "add_series self series is_trend =
     (let self1 = self\<lparr>config := (config self)(''is_trend'' \<mapsto> PBool is_trend)\<rparr> in
      case transform_input self1 series of
        Inl e \<Rightarrow> (Inl e, self1)
      | Inr series' \<Rightarrow>
          if is_trend then (Inr (), self1\<lparr>trends := trends self1 @ [series']\<rparr>)
          else (Inr (), self1\<lparr>non_trends := non_trends self1 @ [series']\<rparr>))"

text \<open>\<open>Library.combine\<close>: a failed \<open>assert\<close> raises at once, after the assignments before it.\<close>

definition combine :: "library \<Rightarrow> library \<Rightarrow> (error + unit) \<times> library" where
  "combine self lib =
     (if trends lib \<noteq> [] \<and> trends self \<noteq> [] then (Inl AssertionError, self)
      else
        (let self1 = (if trends lib \<noteq> [] then self\<lparr>trends := trends lib\<rparr> else self) in
         if non_trends lib \<noteq> [] \<and> non_trends self1 \<noteq> [] then (Inl AssertionError, self1)
         else if non_trends lib \<noteq> [] then (Inr (), self1\<lparr>non_trends := non_trends lib\<rparr>)
         else (Inr (), self1)))"

subsection \<open>Persistence\<close>

text \<open>
  \<open>load_library\<close>: the argument is the outcome of \<open>pickle.load(open(file_name))\<close>, the
  unpickled library or the exception raised. Only \<open>EOFError\<close> is caught, and the handler
  calls the constructor with no keyword argument.
\<close>

definition load_library :: "error + library \<Rightarrow> error + library" where
  "load_library unpickled =
     (case unpickled of
        Inr lib \<Rightarrow> Inr lib
      | Inl e \<Rightarrow> if e = EOFError then Library_init Map.empty else Inl e)"

text \<open>
  \<open>merge_library\<close>: \<open>stored\<close> is \<open>None\<close> when the file does not exist, otherwise the
  outcome of unpickling it.
\<close>

definition merge_library :: "library \<Rightarrow> (error + library) option \<Rightarrow> (error + unit) \<times> library" where
  "merge_library library stored =
     (case stored of
        None \<Rightarrow> (Inr (), library)
      | Some unpickled \<Rightarrow>
          (case load_library unpickled of
             Inl e \<Rightarrow> (Inl e, library)
           | Inr lib_from_file \<Rightarrow> combine library lib_from_file))"

subsection \<open>Notions used in the statements\<close>




text \<open>
  What the constructor establishes about a library and no method changes: the four
  transformations are installed, and the configuration has the keys they read.
\<close>

definition pipeline_ready :: "library \<Rightarrow> bool" where
  "pipeline_ready lib \<longleftrightarrow>
     transformations lib = set_up_transformations
     \<and> config lib ''alpha'' \<noteq> None \<and> config lib ''n_smooth'' \<noteq> None"

subsection \<open>Example inputs\<close>

text \<open>Concrete libraries and configurations at which the theorems below are instantiated.\<close>

definition lib_non_trends_only :: library where
  "lib_non_trends_only =
     \<lparr> trends = [], non_trends = [[1]], config = default_config,
       transformations = set_up_transformations \<rparr>"

definition lib_trends_only :: library where
  "lib_trends_only =
     \<lparr> trends = [[2]], non_trends = [], config = default_config,
       transformations = set_up_transformations \<rparr>"

definition lib_empty :: library where
  "lib_empty =
     \<lparr> trends = [], non_trends = [], config = default_config,
       transformations = set_up_transformations \<rparr>"

definition lib_both :: library where
  "lib_both =
     \<lparr> trends = [[3]], non_trends = [[4]], config = default_config,
       transformations = set_up_transformations \<rparr>"

definition scenario_kwargs :: "string \<rightharpoonup> config" where
  "scenario_kwargs = [''config'' \<mapsto> [''alpha'' \<mapsto> PInt 1]]"

definition scenario_lib :: library where
  "scenario_lib =
     \<lparr> trends = [], non_trends = [],
       config = default_config ++ [''alpha'' \<mapsto> PInt 1],
       transformations = set_up_transformations \<rparr>"

definition cfg_trend :: "int \<Rightarrow> config" where
  "cfg_trend R = [''reference_length'' \<mapsto> PInt R, ''is_trend'' \<mapsto> PBool True]"

definition cfg_non_trend :: "int \<Rightarrow> config" where
  "cfg_non_trend R = [''reference_length'' \<mapsto> PInt R, ''is_trend'' \<mapsto> PBool False]"

section \<open>Properties\<close>

subsection \<open>\<open>Library.combine\<close>\<close>

text \<open>
  C1. Combining succeeds exactly when no label has entries on both sides, and raises
  \<open>AssertionError\<close> otherwise. On success each collection of \<open>self\<close> is the other
  library's when that is non-empty (and \<open>self\<close>'s was then empty), and is unchanged
  otherwise. A collision never overwrites or merges the collection it is about. Combining
  with a library whose two collections are empty changes nothing.
\<close>

theorem combine_contract:
  "(fst (combine self lib) = Inl AssertionError \<longleftrightarrow>
      (trends lib \<noteq> [] \<and> trends self \<noteq> []) \<or> (non_trends lib \<noteq> [] \<and> non_trends self \<noteq> []))
   \<and> (fst (combine self lib) = Inr () \<longleftrightarrow>
      \<not> ((trends lib \<noteq> [] \<and> trends self \<noteq> []) \<or> (non_trends lib \<noteq> [] \<and> non_trends self \<noteq> [])))
   \<and> (fst (combine self lib) = Inr () \<longrightarrow>
        trends (snd (combine self lib)) = (if trends lib \<noteq> [] then trends lib else trends self)
      \<and> non_trends (snd (combine self lib)) =
          (if non_trends lib \<noteq> [] then non_trends lib else non_trends self)
      \<and> config (snd (combine self lib)) = config self
      \<and> transformations (snd (combine self lib)) = transformations self)
   \<and> (trends lib \<noteq> [] \<and> trends self \<noteq> [] \<longrightarrow> snd (combine self lib) = self)
   \<and> (non_trends lib \<noteq> [] \<and> non_trends self \<noteq> [] \<longrightarrow>
        non_trends (snd (combine self lib)) = non_trends self)
   \<and> (trends lib = [] \<and> non_trends lib = [] \<longrightarrow> combine self lib = (Inr (), self))"
  by (simp add: combine_def Let_def)

theorem combine_contract_witness:
  "fst (combine lib_non_trends_only lib_trends_only) = Inr ()
   \<and> trends (snd (combine lib_non_trends_only lib_trends_only)) = [[2]]
   \<and> non_trends (snd (combine lib_non_trends_only lib_trends_only)) = [[1]]
   \<and> fst (combine lib_trends_only lib_trends_only) = Inl AssertionError
   \<and> snd (combine lib_trends_only lib_trends_only) = lib_trends_only
   \<and> combine lib_non_trends_only lib_empty = (Inr (), lib_non_trends_only)"
  using combine_contract [of lib_non_trends_only lib_trends_only]
    combine_contract [of lib_trends_only lib_trends_only]
    combine_contract [of lib_non_trends_only lib_empty]
  by (simp add: lib_non_trends_only_def lib_trends_only_def lib_empty_def)

text \<open>
  C9. \<open>combine\<close> is not atomic. When the other library has trends and \<open>self\<close> has
  none, but both have non-trends, the call raises \<open>AssertionError\<close> at the second
  assertion, and \<open>self\<close> is left with its trends already replaced by the other library's.
\<close>

theorem combine_not_atomic:
  "trends lib \<noteq> [] \<Longrightarrow> trends self = [] \<Longrightarrow> non_trends lib \<noteq> [] \<Longrightarrow> non_trends self \<noteq> [] \<Longrightarrow>
   combine self lib = (Inl AssertionError, self\<lparr>trends := trends lib\<rparr>)
   \<and> trends (snd (combine self lib)) = trends lib
   \<and> non_trends (snd (combine self lib)) = non_trends self
   \<and> snd (combine self lib) \<noteq> self"
proof -
  assume h: "trends lib \<noteq> []" "trends self = []" "non_trends lib \<noteq> []" "non_trends self \<noteq> []"
  then have r: "combine self lib = (Inl AssertionError, self\<lparr>trends := trends lib\<rparr>)"
    by (simp add: combine_def Let_def)
  have "trends (self\<lparr>trends := trends lib\<rparr>) \<noteq> trends self"
    using h by simp
  then have "self\<lparr>trends := trends lib\<rparr> \<noteq> self"
    by force
  with r show ?thesis by simp
qed

theorem combine_not_atomic_witness:
  "trends lib_both \<noteq> [] \<and> trends lib_non_trends_only = []
   \<and> non_trends lib_both \<noteq> [] \<and> non_trends lib_non_trends_only \<noteq> []
   \<and> fst (combine lib_non_trends_only lib_both) = Inl AssertionError
   \<and> trends (snd (combine lib_non_trends_only lib_both)) = [[3]]
   \<and> non_trends (snd (combine lib_non_trends_only lib_both)) = [[1]]
   \<and> snd (combine lib_non_trends_only lib_both) \<noteq> lib_non_trends_only"
  using combine_not_atomic [of lib_both lib_non_trends_only]
  by (simp add: lib_non_trends_only_def lib_both_def)

subsection \<open>\<open>TopicSeries.get_subseries\<close>\<close>

lemma get_subseries_from_eq:
  "get_subseries_from self len index =
     map (\<lambda>k. py_slice self (index + int k) (index + int k + len))
       [0..<nat (int (length self) - len - index + 1)]"
proof (induction self len index rule: get_subseries_from.induct)
  case (1 self len index)
  show ?case
  proof (cases "index + len \<le> int (length self)")
    case True
    then have n: "nat (int (length self) - len - index + 1) =
        Suc (nat (int (length self) - len - (index + 1) + 1))"
      by simp
    show ?thesis
      apply (subst get_subseries_from.simps)
      apply (simp only: True if_True n "1.IH"[OF True])
      apply (simp add: upt_conv_Cons map_Suc_upt[symmetric] del: upt_Suc)
      apply (simp add: comp_def algebra_simps)
      done
  next
    case False
    then show ?thesis by (subst get_subseries_from.simps) simp
  qed
qed

lemma get_subseries_eq:
  "get_subseries xs L =
     map (\<lambda>k. py_slice xs (int k) (int k + L)) [0..<nat (int (length xs) - L + 1)]"
  unfolding get_subseries_def by (subst get_subseries_from_eq) simp

lemma py_slice_window:
  assumes "0 \<le> L" "int k + L \<le> int (length xs)"
  shows "py_slice xs (int k) (int k + L) = take (nat L) (drop k xs)"
proof -
  have "slice_bound (int (length xs)) (int k) = int k"
    using assms by (simp add: slice_bound_def)
  moreover have "slice_bound (int (length xs)) (int k + L) = int k + L"
    using assms by (simp add: slice_bound_def)
  ultimately show ?thesis
    by (simp add: py_slice_def Let_def)
qed

text \<open>
  C2. On a series of length \<open>N\<close>, \<open>get_subseries(L)\<close> yields \<open>max(0, N - L + 1)\<close>
  windows; the \<open>k\<close>-th window is the slice starting at offset \<open>k\<close>, so the offsets are
  \<open>0, 1, \<dots>, N - L\<close> in increasing order; for a window length \<open>L \<ge> 0\<close> every window
  is the contiguous run of exactly \<open>L\<close> elements from its offset; nothing is yielded when
  \<open>L > N\<close>.
\<close>

theorem get_subseries_windows:
  "get_subseries xs L =
     map (\<lambda>k. py_slice xs (int k) (int k + L)) [0..<nat (int (length xs) - L + 1)]
   \<and> length (get_subseries xs L) = nat (max 0 (int (length xs) - L + 1))
   \<and> (0 \<le> L \<longrightarrow>
        get_subseries xs L =
          map (\<lambda>k. take (nat L) (drop k xs)) [0..<nat (int (length xs) - L + 1)]
      \<and> (\<forall>w \<in> set (get_subseries xs L). length w = nat L))
   \<and> (int (length xs) < L \<longrightarrow> get_subseries xs L = [])"
proof -
  let ?n = "nat (int (length xs) - L + 1)"
  note a = get_subseries_eq [of xs L]
  have b: "length (get_subseries xs L) = nat (max 0 (int (length xs) - L + 1))"
    by (simp add: a max_def)
  have w: "py_slice xs (int k) (int k + L) = take (nat L) (drop k xs)"
    if "0 \<le> L" "k \<in> set [0..<?n]" for k
  proof -
    from that have "int k + L \<le> int (length xs)" by simp
    with that show ?thesis by (simp add: py_slice_window)
  qed
  have c: "get_subseries xs L = map (\<lambda>k. take (nat L) (drop k xs)) [0..<?n]" if "0 \<le> L"
    unfolding a using w[OF that] by (rule map_cong[OF refl])
  have d: "\<forall>w \<in> set (get_subseries xs L). length w = nat L" if nonneg: "0 \<le> L"
  proof
    fix v assume "v \<in> set (get_subseries xs L)"
    then obtain k where k: "k < ?n" and v: "v = take (nat L) (drop k xs)"
      unfolding c[OF nonneg] by auto
    from k nonneg have "nat L \<le> length xs - k" by linarith
    with v show "length v = nat L" by simp
  qed
  have e: "get_subseries xs L = []" if "int (length xs) < L"
    using that by (simp add: a)
  from a b c d e show ?thesis by blast
qed

theorem get_subseries_windows_witness:
  "get_subseries [10, 20, 30, 40 :: int] 3 = [[10, 20, 30], [20, 30, 40]]
   \<and> length (get_subseries [10, 20, 30, 40 :: int] 3) = 2
   \<and> get_subseries [10, 20, 30 :: int] 4 = []"
  using get_subseries_windows [of "[10, 20, 30, 40 :: int]" 3]
    get_subseries_windows [of "[10, 20, 30 :: int]" 4]
  by (simp add: upt_conv_Cons py_slice_def slice_bound_def)

subsection \<open>The transformations\<close>













text \<open>
  Two more inputs that overflow: with the default \<open>alpha = 1.2\<close> the point \<open>10 ^ 300\<close>,
  whose power is \<open>10 ^ 360\<close>; and a Python int too large for a double as the argument
  of \<open>math.pow\<close>, whatever the exponent.
\<close>

lemma power_300_powr: "((10::real) ^ 300) powr 1.2 = 10 ^ 360"
proof -
  have "((10::real) ^ 300) powr 1.2 = (10 powr 300) powr 1.2"
    by simp
  also have "\<dots> = 10 powr 360"
    by (simp only: powr_powr) simp
  also have "\<dots> = 10 ^ 360"
    by simp
  finally show ?thesis .
qed

lemma spike_normalization_default_alpha_overflow:
  "spike_normalization [10 ^ 300] default_config = Inl OverflowError"
  using power_300_powr
  by (simp add: spike_normalization_def getitem_def default_config_def math_pow_def
      double_result_def overflow_bound_def)

lemma math_pow_int_argument_overflow: "math_pow (10 ^ 400) 0.5 = Inl OverflowError"
  by (simp add: math_pow_def overflow_bound_def)

text \<open>
  Unit normalization over the reals: every point is divided by the length of the whole
  series, the length is kept, and the sum is divided by the length. The last equation is
  one of real arithmetic; the rounding of each quotient and of each partial sum in
  double precision is not part of this model.
\<close>

lemma sum_list_divide_const: "sum_list (map (\<lambda>pt. pt / c) xs) = sum_list xs / (c :: real)"
  by (induction xs) (simp_all add: add_divide_distrib)

lemma unit_normalization_real:
  "unit_normalization series cfg = Inr (map (\<lambda>pt. pt / real (length series)) series)
   \<and> length (map (\<lambda>pt. pt / real (length series)) series) = length series
   \<and> sum_list (map (\<lambda>pt. pt / real (length series)) series) =
       sum_list series / real (length series)"
  by (simp add: unit_normalization_def sum_list_divide_const)

subsection \<open>The pipeline\<close>

lemma run_four_transformations:
  "run_transformations [f1, f2, f3, f4] cfg s =
     (case f1 s cfg of Inl e \<Rightarrow> Inl e
      | Inr s1 \<Rightarrow> (case f2 s1 cfg of Inl e \<Rightarrow> Inl e
      | Inr s2 \<Rightarrow> (case f3 s2 cfg of Inl e \<Rightarrow> Inl e
      | Inr s3 \<Rightarrow> f4 s3 cfg)))"
  by (simp split: sum.splits)

lemma set_up_transformations_list:
  "set_up_transformations =
     [spike_normalization, smoothing, unit_normalization, logarithmic_scaling]"
  by (simp add: set_up_transformations_def)

lemma scenario_spike:
  "cfg ''alpha'' = Some a \<Longrightarrow> py_float a = 1 \<Longrightarrow>
   spike_normalization [1, 2, 3, 2, 1] cfg = Inr [1, 1, 1, 1, 1]"
  by (simp add: spike_normalization_def getitem_def math_pow_def double_result_def
      overflow_bound_def)

lemma scenario_smoothing:
  "cfg ''n_smooth'' = Some n \<Longrightarrow> py_int n = 80 \<Longrightarrow>
   smoothing [1, 1, 1, 1, 1] cfg = Inr [1, 2, 3, 4, 5]"
  by (simp add: smoothing_def getitem_def Let_def)

lemma scenario_unit:
  "unit_normalization [1, 2, 3, 4, 5] cfg = Inr [0.2, 0.4, 0.6, 0.8, 1.0]"
  by (simp add: unit_normalization_def)

lemma scenario_log:
  "logarithmic_scaling [0.2, 0.4, 0.6, 0.8, 1.0] cfg =
     Inr [log 10 1.2, log 10 1.4, log 10 1.6, log 10 1.8, log 10 2.0]"
  by (simp add: logarithmic_scaling_def py_min_def math_log10_def)

text \<open>
  C3. A library set up by the constructor runs exactly four stages, spike normalization,
  smoothing, unit normalization and logarithmic scaling, in this order, each on the output
  of the one before (an error of a stage ends the run). With \<open>alpha = 1\<close> and
  \<open>n_smooth = 80\<close> the raw series \<open>[1,2,3,2,1]\<close> becomes \<open>[1,1,1,1,1]\<close>, then
  \<open>[1,2,3,4,5]\<close>, then \<open>[0.2,0.4,0.6,0.8,1.0]\<close>, and the pipeline returns
  \<open>[log10 1.2, log10 1.4, log10 1.6, log10 1.8, log10 2.0]\<close>.
\<close>

theorem pipeline_order:
  assumes "transformations lib = set_up_transformations"
  shows "transformations lib =
           [spike_normalization, smoothing, unit_normalization, logarithmic_scaling]
    \<and> transform_input lib s =
         (case spike_normalization s (config lib) of Inl e \<Rightarrow> Inl e
          | Inr s1 \<Rightarrow> (case smoothing s1 (config lib) of Inl e \<Rightarrow> Inl e
          | Inr s2 \<Rightarrow> (case unit_normalization s2 (config lib) of Inl e \<Rightarrow> Inl e
          | Inr s3 \<Rightarrow> logarithmic_scaling s3 (config lib))))
    \<and> (config lib ''alpha'' = Some a \<and> py_float a = 1
        \<and> config lib ''n_smooth'' = Some n \<and> py_int n = 80 \<longrightarrow>
          spike_normalization [1, 2, 3, 2, 1] (config lib) = Inr [1, 1, 1, 1, 1]
        \<and> smoothing [1, 1, 1, 1, 1] (config lib) = Inr [1, 2, 3, 4, 5]
        \<and> unit_normalization [1, 2, 3, 4, 5] (config lib) = Inr [0.2, 0.4, 0.6, 0.8, 1.0]
        \<and> logarithmic_scaling [0.2, 0.4, 0.6, 0.8, 1.0] (config lib) =
            Inr [log 10 1.2, log 10 1.4, log 10 1.6, log 10 1.8, log 10 2.0]
        \<and> transform_input lib [1, 2, 3, 2, 1] =
            Inr [log 10 1.2, log 10 1.4, log 10 1.6, log 10 1.8, log 10 2.0])"
proof -
  have l: "transformations lib =
           [spike_normalization, smoothing, unit_normalization, logarithmic_scaling]"
    using assms by (simp only: set_up_transformations_list)
  have c: "transform_input lib s =
         (case spike_normalization s (config lib) of Inl e \<Rightarrow> Inl e
          | Inr s1 \<Rightarrow> (case smoothing s1 (config lib) of Inl e \<Rightarrow> Inl e
          | Inr s2 \<Rightarrow> (case unit_normalization s2 (config lib) of Inl e \<Rightarrow> Inl e
          | Inr s3 \<Rightarrow> logarithmic_scaling s3 (config lib))))" for s
    unfolding transform_input_def l by (rule run_four_transformations)
  have d: "transform_input lib [1, 2, 3, 2, 1] =
            Inr [log 10 1.2, log 10 1.4, log 10 1.6, log 10 1.8, log 10 2.0]"
    if "config lib ''alpha'' = Some a" "py_float a = 1"
       "config lib ''n_smooth'' = Some n" "py_int n = 80"
    unfolding c
    by (simp only: scenario_spike[of "config lib", OF that(1,2)]
        scenario_smoothing[of "config lib", OF that(3,4)] scenario_unit scenario_log sum.case)
  from l c d scenario_spike scenario_smoothing scenario_unit scenario_log show ?thesis
    by blast
qed

theorem pipeline_order_witness:
  "Library_init scenario_kwargs = Inr scenario_lib
   \<and> transformations scenario_lib = set_up_transformations
   \<and> config scenario_lib ''alpha'' = Some (PInt 1) \<and> py_float (PInt 1) = 1
   \<and> config scenario_lib ''n_smooth'' = Some (PInt 80) \<and> py_int (PInt 80) = 80
   \<and> transform_input scenario_lib [1, 2, 3, 2, 1] =
        Inr [log 10 1.2, log 10 1.4, log 10 1.6, log 10 1.8, log 10 2.0]"
  using pipeline_order [where lib = scenario_lib and a = "PInt 1" and n = "PInt 80"]
  by (simp add: scenario_lib_def scenario_kwargs_def Library_init_def default_config_def)

subsection \<open>\<open>Library.add_series\<close>\<close>

lemma Library_init_ready: "Library_init kwargs = Inr lib \<Longrightarrow> pipeline_ready lib"
  by (auto simp: Library_init_def pipeline_ready_def default_config_def map_add_def
      split: option.splits)

lemma add_series_ready: "pipeline_ready lib \<Longrightarrow> pipeline_ready (snd (add_series lib s b))"
  by (auto simp: add_series_def pipeline_ready_def Let_def split: sum.splits)

lemma combine_ready: "pipeline_ready self \<Longrightarrow> pipeline_ready (snd (combine self lib))"
  by (auto simp: combine_def pipeline_ready_def Let_def)

lemma spike_loop_length:
  "spike_loop alpha prev acc xs = Inr out \<Longrightarrow> length out = length acc + length xs"
  by (induction xs arbitrary: prev acc) (auto split: sum.splits if_splits)

lemma smoothing_loop_length:
  "length (smoothing_loop n q acc xs) = length acc + length xs"
  by (induction xs arbitrary: q acc) (simp_all add: Let_def)

lemma log_loop_length:
  "log_loop acc xs = Inr out \<Longrightarrow> length out = length acc + length xs"
  by (induction xs arbitrary: acc) (auto split: sum.splits)

lemma spike_normalization_length:
  "spike_normalization s cfg = Inr out \<Longrightarrow> length out = length s"
  by (auto simp: spike_normalization_def dest: spike_loop_length split: sum.splits)

lemma smoothing_length: "smoothing s cfg = Inr out \<Longrightarrow> length out = length s"
  by (auto simp: smoothing_def smoothing_loop_length split: sum.splits)

lemma unit_normalization_length:
  "unit_normalization s cfg = Inr out \<Longrightarrow> length out = length s"
  by (auto simp: unit_normalization_def)

lemma logarithmic_scaling_length:
  "logarithmic_scaling s cfg = Inr out \<Longrightarrow> length out = length s \<and> s \<noteq> []"
  by (auto simp: logarithmic_scaling_def py_min_def dest: log_loop_length
      split: sum.splits list.splits)

lemma transform_input_length:
  assumes "transformations lib = set_up_transformations" "transform_input lib s = Inr out"
  shows "length out = length s \<and> out \<noteq> []"
proof -
  from assms obtain s1 s2 s3 where
    "spike_normalization s (config lib) = Inr s1" "smoothing s1 (config lib) = Inr s2"
    "unit_normalization s2 (config lib) = Inr s3" "logarithmic_scaling s3 (config lib) = Inr out"
    by (auto simp: transform_input_def set_up_transformations_list run_four_transformations
        split: sum.splits)
  then show ?thesis
    using spike_normalization_length smoothing_length unit_normalization_length
      logarithmic_scaling_length by (metis length_0_conv)
qed

text \<open>
  Whatever \<open>add_series\<close> appends is as long as the raw series and not empty.
\<close>

lemma add_series_appends_nonempty:
  assumes "transformations self = set_up_transformations"
    and "fst (add_series self s is_trend) = Inr ()"
  shows "\<exists>t. transform_input
            (self\<lparr>config := (config self)(''is_trend'' \<mapsto> PBool is_trend)\<rparr>) s = Inr t
     \<and> t \<noteq> [] \<and> length t = length s
     \<and> trends (snd (add_series self s is_trend)) =
         (if is_trend then trends self @ [t] else trends self)
     \<and> non_trends (snd (add_series self s is_trend)) =
         (if is_trend then non_trends self else non_trends self @ [t])"
proof -
  let ?self1 = "self\<lparr>config := (config self)(''is_trend'' \<mapsto> PBool is_trend)\<rparr>"
  from assms(2) obtain t where t: "transform_input ?self1 s = Inr t"
    by (auto simp: add_series_def Let_def split: sum.splits)
  have "transformations ?self1 = set_up_transformations" using assms(1) by simp
  from transform_input_length[OF this t] t show ?thesis
    by (simp add: add_series_def Let_def)
qed

text \<open>
  C10. Adding the empty series fails, for either label and for every library the
  constructor has set up: the first three stages return the empty series,
  \<open>logarithmic_scaling\<close> raises \<open>ValueError\<close> at \<open>min\<close> of the empty series, and
  \<open>add_series\<close> raises it in turn; \<open>trends\<close> and \<open>non_trends\<close> are as before (only the
  \<open>is_trend\<close> entry of the configuration has been written). Hence a call of
  \<open>add_series\<close> that succeeds was not given the empty series.
\<close>

theorem add_empty_series_fails:
  assumes "pipeline_ready self"
  shows "add_series self [] is_trend =
           (Inl ValueError, self\<lparr>config := (config self)(''is_trend'' \<mapsto> PBool is_trend)\<rparr>)
    \<and> trends (snd (add_series self [] is_trend)) = trends self
    \<and> non_trends (snd (add_series self [] is_trend)) = non_trends self
    \<and> spike_normalization [] ((config self)(''is_trend'' \<mapsto> PBool is_trend)) = Inr []
    \<and> smoothing [] ((config self)(''is_trend'' \<mapsto> PBool is_trend)) = Inr []
    \<and> unit_normalization [] ((config self)(''is_trend'' \<mapsto> PBool is_trend)) = Inr []
    \<and> py_min [] = Inl ValueError
    \<and> logarithmic_scaling [] ((config self)(''is_trend'' \<mapsto> PBool is_trend)) = Inl ValueError
    \<and> (fst (add_series self s is_trend) = Inr () \<longrightarrow> s \<noteq> [])"
proof -
  let ?cfg = "(config self)(''is_trend'' \<mapsto> PBool is_trend)"
  let ?self1 = "self\<lparr>config := ?cfg\<rparr>"
  from assms obtain a n where a: "config self ''alpha'' = Some a"
    and n: "config self ''n_smooth'' = Some n"
    and t: "transformations self = set_up_transformations"
    by (auto simp: pipeline_ready_def)
  have s1: "spike_normalization [] ?cfg = Inr []"
    using a by (simp add: spike_normalization_def getitem_def)
  have s2: "smoothing [] ?cfg = Inr []"
    using n by (simp add: smoothing_def getitem_def)
  have s3: "unit_normalization [] ?cfg = Inr []"
    by (simp add: unit_normalization_def)
  have m: "py_min [] = Inl ValueError"
    by (simp add: py_min_def)
  have s4: "logarithmic_scaling [] ?cfg = Inl ValueError"
    by (simp add: logarithmic_scaling_def m)
  have ti: "transform_input ?self1 [] = Inl ValueError"
    using t by (simp add: transform_input_def set_up_transformations_list
        run_four_transformations s1 s2 s3 s4)
  then have r: "add_series self [] is_trend = (Inl ValueError, ?self1)"
    by (simp add: add_series_def Let_def)
  have ne: "s \<noteq> []" if "fst (add_series self s is_trend) = Inr ()"
  proof
    assume "s = []"
    with that r show False by simp
  qed
  from r s1 s2 s3 m s4 ne show ?thesis by simp
qed

theorem add_empty_series_fails_witness:
  "pipeline_ready lib_both
   \<and> fst (add_series lib_both [] True) = Inl ValueError
   \<and> trends (snd (add_series lib_both [] True)) = [[3]]
   \<and> non_trends (snd (add_series lib_both [] True)) = [[4]]
   \<and> fst (add_series lib_both [] False) = Inl ValueError"
  using add_empty_series_fails [of lib_both True] add_empty_series_fails [of lib_both False]
  by (simp add: lib_both_def pipeline_ready_def default_config_def)

subsection \<open>\<open>load_library\<close>\<close>

text \<open>
  C8. Loading from an empty backing store raises: \<open>pickle.load\<close> raises \<open>EOFError\<close>,
  the handler calls \<open>Library()\<close> with no keyword argument, and the constructor raises
  \<open>KeyError\<close> at \<open>kwargs["config"]\<close>. No empty library is returned. The errors of a
  corrupt or unreadable store are not caught at all.
\<close>

theorem load_library_empty_store_raises:
  "load_library (Inl EOFError) = Inl (KeyError ''config'')
   \<and> Library_init Map.empty = Inl (KeyError ''config'')
   \<and> load_library (Inl UnpicklingError) = Inl UnpicklingError
   \<and> load_library (Inl IOError) = Inl IOError"
  by (simp add: load_library_def Library_init_def)

subsection \<open>\<open>sizing\<close>\<close>

lemma sizing_loop_not_found:
  "\<forall>x\<in>set xs. x \<le> mp \<Longrightarrow> sizing_loop mi mp idx xs = (mi, mp, idx + int (length xs))"
  by (induction xs arbitrary: idx) auto

text \<open>
  When some point exceeds the starting \<open>max_pt\<close>, the loop ends with \<open>max_idx\<close> at the
  first position of the maximum.
\<close>

lemma sizing_loop_found:
  "\<exists>x\<in>set xs. mp < x \<Longrightarrow>
   \<exists>k<length xs. fst (sizing_loop mi mp idx xs) = Some (idx + int k) \<and> mp < xs ! k
      \<and> (\<forall>j<k. xs ! j < xs ! k) \<and> (\<forall>j<length xs. xs ! j \<le> xs ! k)"
proof (induction xs arbitrary: mi mp idx)
  case Nil
  then show ?case by simp
next
  case (Cons pt rest)
  let ?P = "\<lambda>k. k < length (pt # rest)
      \<and> fst (sizing_loop mi mp idx (pt # rest)) = Some (idx + int k) \<and> mp < (pt # rest) ! k
      \<and> (\<forall>j<k. (pt # rest) ! j < (pt # rest) ! k)
      \<and> (\<forall>j<length (pt # rest). (pt # rest) ! j \<le> (pt # rest) ! k)"
  have step: "?P (Suc k')"
    if call: "sizing_loop mi mp idx (pt # rest) = sizing_loop mi' mp' (idx + 1) rest"
      and k': "k' < length rest"
        "fst (sizing_loop mi' mp' (idx + 1) rest) = Some (idx + 1 + int k')"
        "mp' < rest ! k'" "\<forall>j<k'. rest ! j < rest ! k'" "\<forall>j<length rest. rest ! j \<le> rest ! k'"
      and pt: "pt \<le> mp'" "mp \<le> mp'"
    for mi' mp' k'
  proof -
    have "(pt # rest) ! j < (pt # rest) ! Suc k'" if "j < Suc k'" for j
      using that k' pt by (cases j) auto
    moreover have "(pt # rest) ! j \<le> (pt # rest) ! Suc k'" if "j < length (pt # rest)" for j
      using that k' pt by (cases j) auto
    ultimately show ?thesis
      using call k' pt by (simp add: algebra_simps)
  qed
  show ?case
  proof (cases "mp < pt")
    case True
    then have call: "sizing_loop mi mp idx (pt # rest) = sizing_loop (Some idx) pt (idx + 1) rest"
      by simp
    show ?thesis
    proof (cases "\<exists>x\<in>set rest. pt < x")
      case True
      from Cons.IH[OF this, of "Some idx" "idx + 1"] obtain k' where
        "k' < length rest"
        "fst (sizing_loop (Some idx) pt (idx + 1) rest) = Some (idx + 1 + int k')"
        "pt < rest ! k'" "\<forall>j<k'. rest ! j < rest ! k'" "\<forall>j<length rest. rest ! j \<le> rest ! k'"
        by blast
      from step[OF call this] \<open>mp < pt\<close> have "?P (Suc k')" by simp
      then show ?thesis by blast
    next
      case False
      then have le: "\<forall>x\<in>set rest. x \<le> pt" by auto
      have "(pt # rest) ! j \<le> pt" if "j < length (pt # rest)" for j
        using that le by (cases j) auto
      then have "?P 0"
        using call \<open>mp < pt\<close> by (simp add: sizing_loop_not_found[OF le])
      then show ?thesis by blast
    qed
  next
    case False
    then have call: "sizing_loop mi mp idx (pt # rest) = sizing_loop mi mp (idx + 1) rest"
      by simp
    from False Cons.prems have "\<exists>x\<in>set rest. mp < x" by auto
    from Cons.IH[OF this, of mi "idx + 1"] obtain k' where
      "k' < length rest" "fst (sizing_loop mi mp (idx + 1) rest) = Some (idx + 1 + int k')"
      "mp < rest ! k'" "\<forall>j<k'. rest ! j < rest ! k'" "\<forall>j<length rest. rest ! j \<le> rest ! k'"
      by blast
    from step[OF call this] False have "?P (Suc k')" by simp
    then show ?thesis by blast
  qed
qed

lemma py_slice_short:
  assumes "0 \<le> m" "m < int (length xs)" "int (length xs) < R"
  shows "int (length (py_slice xs (m - R) m)) < R"
  using assms by (simp add: py_slice_def slice_bound_def Let_def)

lemma py_slice_before:
  assumes "0 \<le> R" "R \<le> m" "m \<le> int (length xs)"
  shows "py_slice xs (m - R) m = take (nat R) (drop (nat (m - R)) xs)"
    and "int (length (py_slice xs (m - R) m)) = R"
  using assms by (simp_all add: py_slice_def slice_bound_def Let_def)

text \<open>
  For the trend label and a series with a point above \<open>-5000\<close>, \<open>sizing\<close> returns the
  slice \<open>series[k - R : k]\<close> at the first position \<open>k\<close> of the maximum; when \<open>0 \<le> R \<le> k\<close>
  this is the run of \<open>R\<close> points that ends just before \<open>k\<close>.
\<close>

lemma sizing_trend:
  assumes "cfg ''reference_length'' = Some rl" "cfg ''is_trend'' = Some t" "py_bool t"
    and "\<exists>x\<in>set series. - 5000 < x"
  shows "\<exists>k<length series.
      sizing series cfg r = Inr (py_slice series (int k - py_int rl) (int k))
      \<and> (\<forall>j<k. series ! j < series ! k) \<and> (\<forall>j<length series. series ! j \<le> series ! k)
      \<and> (0 \<le> py_int rl \<and> py_int rl \<le> int k \<longrightarrow>
           sizing series cfg r = Inr (take (nat (py_int rl)) (drop (k - nat (py_int rl)) series)))"
proof -
  from sizing_loop_found[OF assms(4), of None 0] obtain k where
    k: "k < length series" "fst (sizing_loop None (- 5000) 0 series) = Some (int k)"
    "\<forall>j<k. series ! j < series ! k" "\<forall>j<length series. series ! j \<le> series ! k"
    by auto
  have s: "sizing series cfg r = Inr (py_slice series (int k - py_int rl) (int k))"
    using assms(1-3) k(2) by (simp add: sizing_def getitem_def Let_def)
  have "py_slice series (int k - py_int rl) (int k) =
      take (nat (py_int rl)) (drop (k - nat (py_int rl)) series)"
    if "0 \<le> py_int rl" "py_int rl \<le> int k"
  proof -
    have "nat (int k - py_int rl) = k - nat (py_int rl)" using that by linarith
    with py_slice_before(1)[of "py_int rl" "int k" series] that k(1) show ?thesis by simp
  qed
  with s k show ?thesis by auto
qed

lemma sizing_trend_no_point_above:
  assumes "cfg ''reference_length'' = Some rl" "cfg ''is_trend'' = Some t" "py_bool t"
    and "\<forall>x\<in>set series. x \<le> - 5000"
  shows "sizing series cfg r = Inl TypeError"
  using assms by (simp add: sizing_def getitem_def Let_def sizing_loop_not_found)

text \<open>
  C6 (as amended). With a reference length greater than the length of the series:
  for the non-trend label \<open>sizing\<close> raises \<open>ValueError\<close>, whatever the random draw; for
  the trend label and a series with a point above \<open>-5000\<close> it raises nothing and returns
  the Python slice \<open>series[k - R : k]\<close> at the first position \<open>k\<close> of the maximum, a
  window of fewer than \<open>R\<close> points.
\<close>

theorem sizing_insufficient_length:
  assumes "cfg ''reference_length'' = Some rl" and "cfg ''is_trend'' = Some t"
    and "int (length series) < py_int rl"
  shows "(\<not> py_bool t \<longrightarrow> sizing series cfg r = Inl ValueError)
    \<and> (py_bool t \<and> (\<exists>x\<in>set series. - 5000 < x) \<longrightarrow>
         (\<exists>k<length series. (\<forall>j<k. series ! j < series ! k)
            \<and> (\<forall>j<length series. series ! j \<le> series ! k)
            \<and> sizing series cfg r = Inr (py_slice series (int k - py_int rl) (int k))
            \<and> int (length (py_slice series (int k - py_int rl) (int k))) < py_int rl))"
proof -
  have a: "sizing series cfg r = Inl ValueError" if "\<not> py_bool t"
    using assms that by (simp add: sizing_def getitem_def Let_def randint_def)
  have b: "\<exists>k<length series. (\<forall>j<k. series ! j < series ! k)
            \<and> (\<forall>j<length series. series ! j \<le> series ! k)
            \<and> sizing series cfg r = Inr (py_slice series (int k - py_int rl) (int k))
            \<and> int (length (py_slice series (int k - py_int rl) (int k))) < py_int rl"
    if "py_bool t" "\<exists>x\<in>set series. - 5000 < x"
  proof -
    from sizing_trend[OF assms(1,2) that, of r] obtain k where
      k: "k < length series"
      "sizing series cfg r = Inr (py_slice series (int k - py_int rl) (int k))"
      "\<forall>j<k. series ! j < series ! k" "\<forall>j<length series. series ! j \<le> series ! k"
      by blast
    from k(1) assms(3)
    have "int (length (py_slice series (int k - py_int rl) (int k))) < py_int rl"
      by (intro py_slice_short) auto
    with k show ?thesis by blast
  qed
  from a b show ?thesis by blast
qed

theorem sizing_insufficient_length_witness:
  "cfg_non_trend 4 ''reference_length'' = Some (PInt 4)
   \<and> cfg_non_trend 4 ''is_trend'' = Some (PBool False)
   \<and> int (length [1, 5, 2 :: real]) < py_int (PInt 4)
   \<and> sizing [1, 5, 2] (cfg_non_trend 4) 7 = Inl ValueError"
  using sizing_insufficient_length [of "cfg_non_trend 4" "PInt 4" "PBool False" "[1, 5, 2]" 7]
  by (simp add: cfg_non_trend_def)

text \<open>
  The claim as first stated fails for the trend label: with reference length \<open>4\<close> on the
  three-point series \<open>[1, 5, 2]\<close> the call returns the one-point window \<open>[1]\<close>.
\<close>

theorem sizing_trend_short_window_counterexample:
  "int (length [1, 5, 2 :: real]) < 4 \<and> sizing [1, 5, 2] (cfg_trend 4) 0 = Inr [1]"
  by (simp add: sizing_def cfg_trend_def getitem_def py_slice_def slice_bound_def)

text \<open>
  C7. On a trend series whose points are all at most \<open>-5000\<close> the search for the maximum
  finds nothing: \<open>max_idx\<close> is still \<open>None\<close> after the loop and the slice raises
  \<open>TypeError\<close>. For \<open>[-7000, -6000, -6500]\<close> and reference length \<open>1\<close> the maximum is at
  index \<open>1\<close> and the window before it would be \<open>[-7000]\<close>.
\<close>

theorem sizing_below_sentinel_raises:
  "sizing [- 7000, - 6000, - 6500] (cfg_trend 1) r = Inl TypeError"
  by (simp add: sizing_def cfg_trend_def getitem_def)

end
